theory Spec2Isabelle
  imports Main "HOL-Library.Word"
begin

section \<open>The trie storage manager (package trie, trieStorageManager)\<close>

text \<open>
  The Go source keeps one \<open>trieStorageManager\<close>, its fields guarded by a mutex that
  \<open>Get\<close>, \<open>Put\<close>, \<open>Remove\<close>, the pruning-counter methods and \<open>Close\<close> hold for
  their whole body. The model is sequential: each call is one step, a function from the
  manager's state to the new state together with what the call returns; interleavings of
  calls and the dispatcher and worker goroutines are not part of it. Byte slices are
  strings; a nil slice and an empty slice are both \<open>[]\<close> (the source only applies
  \<open>len\<close> and \<open>bytes.Equal\<close> to them, which do not tell them apart).
\<close>

type_synonym bytes = string

datatype error =
    ErrKeyNotFound
  | ErrNilDatabase
  | ErrNilStorer string
  | ErrNilMarshalizer
  | ErrNilHasher
  | ErrNilCheckpointHashesHolder
  | ErrNilEpochNotifier
  | BackendError string
  | CloseFailed error

text \<open>
  What a Go call does besides returning: it may panic (a nil dereference, closing a closed
  channel) or block (a \<open>select\<close> with no ready case).
\<close>

datatype 'a outcome = Returns 'a | Panics | Blocks

definition activeDBKey :: bytes where
  "activeDBKey = ''activeDB''"

definition activeDBVal :: bytes where
  "activeDBVal = ''yes''"

subsection \<open>The collaborators behind interfaces\<close>

text \<open>
  Modelled from the spec: the key-value backends. The source holds them as
  \<open>common.DBWriteCacher\<close> (Get, Put, Remove, Close) and no implementation is part of
  the sources. A backend is modelled by what it answers: \<open>reads\<close> is the pair
  (value, error) that \<open>Get\<close> returns for each key in the backend's current state, with
  no restriction on it (a value together with an error, an empty value without an error
  are all possible answers); \<open>writeFault\<close> is the error \<open>Put\<close> and \<open>Remove\<close> return
  while the backend refuses writes; \<open>closeFault\<close> is the error \<open>Close\<close> returns;
  \<open>closeCalls\<close> counts the calls of \<open>Close\<close>.
\<close>

record storer =
  reads :: "bytes \<Rightarrow> bytes \<times> error option"
  writeFault :: "error option"
  closeFault :: "error option"
  closeCalls :: nat

definition storer_Get :: "storer \<Rightarrow> bytes \<Rightarrow> bytes \<times> error option" where
  "storer_Get st key = reads st key"

definition storer_Put :: "bytes \<Rightarrow> bytes \<Rightarrow> storer \<Rightarrow> error option \<times> storer" where
  "storer_Put key val st =
     (case writeFault st of
        Some e \<Rightarrow> (Some e, st)
      | None \<Rightarrow> (None, st\<lparr>reads := (reads st)(key := (val, None))\<rparr>))"

definition storer_Remove :: "bytes \<Rightarrow> storer \<Rightarrow> error option \<times> storer" where
  "storer_Remove key st =
     (case writeFault st of
        Some e \<Rightarrow> (Some e, st)
      | None \<Rightarrow>
          (None, st\<lparr>reads := (reads st)(key := ([], Some (BackendError ''key not found'')))\<rparr>))"

definition storer_Close :: "storer \<Rightarrow> error option \<times> storer" where
  "storer_Close st = (closeFault st, st\<lparr>closeCalls := Suc (closeCalls st)\<rparr>)"

text \<open>
  Modelled from the spec: the checkpoint-hash tracker (\<open>CheckpointHashesHolder\<close>, an
  interface in the source). It records, per root, the node hashes pending inclusion in a
  checkpoint; \<open>Remove\<close> drops a hash from pending tracking and \<open>RemoveCommitted\<close> drops
  the pending entry of a root.
\<close>

type_synonym checkpointHashes = "(bytes \<times> bytes list) list"

definition holder_Remove :: "bytes \<Rightarrow> checkpointHashes \<Rightarrow> checkpointHashes" where
  "holder_Remove hash h = map (\<lambda>(root, hashes). (root, removeAll hash hashes)) h"

definition holder_RemoveCommitted :: "bytes \<Rightarrow> checkpointHashes \<Rightarrow> checkpointHashes" where
  "holder_RemoveCommitted rootHash h = filter (\<lambda>(root, hashes). root \<noteq> rootHash) h"

definition holder_pending :: "checkpointHashes \<Rightarrow> bytes list" where
  "holder_pending h = concat (map snd h)"

text \<open>
  The leaf sink is a Go channel the caller hands over: nil, open or closed. The statistics
  handler is an interface; the model counts its \<open>SnapshotFinished\<close> calls.
\<close>

datatype leavesChan = NilChan | OpenChan | ClosedChan

record snapshotStats =
  finishedCalls :: nat

definition SnapshotFinished :: "snapshotStats \<Rightarrow> snapshotStats" where
  "SnapshotFinished stats = stats\<lparr>finishedCalls := Suc (finishedCalls stats)\<rparr>"

text \<open>
  Modelled from the spec: \<open>atomic.Flag.Toggle\<close> of the flag library, which sets the flag
  to the value of its argument (the spec: the flag is recomputed from the epoch value on
  every call).
\<close>

definition Toggle :: "bool \<Rightarrow> bool \<Rightarrow> bool" where
  "Toggle newValue flag = newValue"

subsection \<open>The manager's state\<close>

record snapshotsQueueEntry =
  rootHash :: bytes
  leavesChan :: leavesChan
  stats :: snapshotStats

text \<open>
  The fields of \<open>trieStorageManager\<close> the modelled methods touch. The two request
  channels are their buffered contents, oldest first, with the capacity
  \<open>SnapshotsBufferLen\<close> they were made with; \<open>cancelled\<close> records that \<open>cancelFunc\<close>
  was called and \<open>closerClosed\<close> that the safe closer's channel is closed.
\<close>

record trieStorageManager =
  mainStorer :: storer
  pruningBlockingOps :: "32 word"
  snapshotReq :: "snapshotsQueueEntry list"
  checkpointReq :: "snapshotsQueueEntry list"
  snapshotsBufferLen :: nat
  checkpointsStorer :: storer
  checkpointHashesHolder :: checkpointHashes
  cancelled :: bool
  closerClosed :: bool
  closed :: bool
  db :: storer
  snapshots :: "storer list"
  flagDisableOldStorage :: bool
  disableOldStorageEpoch :: "32 word"
  oldStorageClosed :: bool

subsection \<open>Get, Put, Remove\<close>

text \<open>
  The loop of \<open>getFromOtherStorers\<close> runs \<open>i\<close> from \<open>len(snapshots) - 1\<close> down to 0;
  the counter here is \<open>i + 1\<close>, so every index read is in range.
\<close>

fun getFromSnapshots :: "storer list \<Rightarrow> nat \<Rightarrow> bytes \<Rightarrow> bytes \<times> error option" where
  "getFromSnapshots snaps 0 key = ([], Some ErrKeyNotFound)"
| "getFromSnapshots snaps (Suc i) key =
     (let val = fst (storer_Get (snaps ! i) key)
      in if length val \<noteq> 0 then (val, None) else getFromSnapshots snaps i key)"

definition getFromOtherStorers :: "bytes \<Rightarrow> trieStorageManager \<Rightarrow> bytes \<times> error option" where
  "getFromOtherStorers key tsm =
     (let val = fst (storer_Get (checkpointsStorer tsm) key)
      in if length val \<noteq> 0 then (val, None)
         else if flagDisableOldStorage tsm then ([], Some ErrKeyNotFound)
         else let val = fst (storer_Get (db tsm) key)
              in if length val \<noteq> 0 then (val, None)
                 else getFromSnapshots (snapshots tsm) (length (snapshots tsm)) key)"

text \<open>
  \<open>Get\<close> returns the value and the error, and the manager after the call: the source
  assigns no field and calls nothing but \<open>Get\<close> on the backends.
\<close>

definition Get :: "bytes \<Rightarrow> trieStorageManager \<Rightarrow> (bytes \<times> error option) \<times> trieStorageManager" where
  "Get key tsm =
     (let val = fst (storer_Get (mainStorer tsm) key)
      in if length val \<noteq> 0 then ((val, None), tsm)
         else (getFromOtherStorers key tsm, tsm))"

definition Put :: "bytes \<Rightarrow> bytes \<Rightarrow> trieStorageManager \<Rightarrow> error option \<times> trieStorageManager" where
  "Put key val tsm =
     (let (err, main') = storer_Put key val (mainStorer tsm)
      in (err, tsm\<lparr>mainStorer := main'\<rparr>))"

definition Remove :: "bytes \<Rightarrow> trieStorageManager \<Rightarrow> error option \<times> trieStorageManager" where
  "Remove hash tsm =
     (let tsm1 = tsm\<lparr>checkpointHashesHolder := holder_Remove hash (checkpointHashesHolder tsm)\<rparr>;
          (err, main') = storer_Remove hash (mainStorer tsm1)
      in (err, tsm1\<lparr>mainStorer := main'\<rparr>))"

subsection \<open>The pruning-block counter\<close>

text \<open>The counter is a \<open>uint32\<close>: \<open>++\<close> wraps at \<open>2 ^ 32\<close>.\<close>

definition EnterPruningBufferingMode :: "trieStorageManager \<Rightarrow> trieStorageManager" where
  "EnterPruningBufferingMode tsm = tsm\<lparr>pruningBlockingOps := pruningBlockingOps tsm + 1\<rparr>"

definition ExitPruningBufferingMode :: "trieStorageManager \<Rightarrow> trieStorageManager" where
  "ExitPruningBufferingMode tsm =
     (if pruningBlockingOps tsm < 1 then tsm
      else tsm\<lparr>pruningBlockingOps := pruningBlockingOps tsm - 1\<rparr>)"

definition IsPruningBlocked :: "trieStorageManager \<Rightarrow> bool" where
  "IsPruningBlocked tsm = (pruningBlockingOps tsm \<noteq> 0)"

datatype pruningCall = Enter | Exit

fun pruningStep :: "pruningCall \<Rightarrow> trieStorageManager \<Rightarrow> trieStorageManager" where
  "pruningStep Enter tsm = EnterPruningBufferingMode tsm"
| "pruningStep Exit tsm = ExitPruningBufferingMode tsm"

fun pruningCalls :: "pruningCall list \<Rightarrow> trieStorageManager \<Rightarrow> trieStorageManager" where
  "pruningCalls [] tsm = tsm"
| "pruningCalls (c # cs) tsm = pruningCalls cs (pruningStep c tsm)"

subsection \<open>TakeSnapshot and SetCheckpoint\<close>

text \<open>
  \<open>close(ch)\<close> on a channel that is already closed panics in Go; \<open>safelyCloseChan\<close>
  only guards against nil.
\<close>

definition safelyCloseChan :: "leavesChan \<Rightarrow> leavesChan outcome" where
  "safelyCloseChan ch =
     (case ch of
        NilChan \<Rightarrow> Returns NilChan
      | OpenChan \<Rightarrow> Returns ClosedChan
      | ClosedChan \<Rightarrow> Panics)"

definition isClosed :: "trieStorageManager \<Rightarrow> bool" where
  "isClosed tsm = closed tsm"

text \<open>
  The \<open>select\<close> at the end of both methods: the send is ready when the buffered channel
  has room, the other case when the closer's channel is closed. When both are ready Go
  picks one at random (\<open>pick\<close> is that choice); when none is, the call blocks until the
  dispatcher goroutine, which is not part of this step, takes a request out.
\<close>

datatype selectCase = SendCase | CloserCase

definition selectReady :: "selectCase \<Rightarrow> nat \<Rightarrow> nat \<Rightarrow> bool \<Rightarrow> selectCase option" where
  "selectReady pick queued capacity closerIsClosed =
     (if queued < capacity \<and> closerIsClosed then Some pick
      else if queued < capacity then Some SendCase
      else if closerIsClosed then Some CloserCase
      else None)"

text \<open>
  \<open>EmptyTrieHash\<close> is a package variable whose declaration is not part of the sources: it
  is the first parameter of both methods. A call returns the manager, the leaf sink and the
  statistics handler as the call leaves them.
\<close>

definition TakeSnapshot ::
  "bytes \<Rightarrow> selectCase \<Rightarrow> bytes \<Rightarrow> leavesChan \<Rightarrow> snapshotStats \<Rightarrow> trieStorageManager
     \<Rightarrow> (trieStorageManager \<times> leavesChan \<times> snapshotStats) outcome" where
  "TakeSnapshot EmptyTrieHash pick root ch st tsm =
     (if isClosed tsm then
        (case safelyCloseChan ch of
           Returns ch' \<Rightarrow> Returns (tsm, ch', SnapshotFinished st)
         | Panics \<Rightarrow> Panics
         | Blocks \<Rightarrow> Blocks)
      else if root = EmptyTrieHash then
        (case safelyCloseChan ch of
           Returns ch' \<Rightarrow> Returns (tsm, ch', SnapshotFinished st)
         | Panics \<Rightarrow> Panics
         | Blocks \<Rightarrow> Blocks)
      else
        (let tsm1 = EnterPruningBufferingMode tsm;
             tsm2 = tsm1\<lparr>checkpointHashesHolder :=
                      holder_RemoveCommitted root (checkpointHashesHolder tsm1)\<rparr>;
             snapshotEntry = \<lparr>rootHash = root, leavesChan = ch, stats = st\<rparr>
         in case selectReady pick (length (snapshotReq tsm2)) (snapshotsBufferLen tsm2)
                   (closerClosed tsm2) of
              Some SendCase \<Rightarrow>
                Returns (tsm2\<lparr>snapshotReq := snapshotReq tsm2 @ [snapshotEntry]\<rparr>, ch, st)
            | Some CloserCase \<Rightarrow>
                (let tsm3 = ExitPruningBufferingMode tsm2
                 in case safelyCloseChan ch of
                      Returns ch' \<Rightarrow> Returns (tsm3, ch', SnapshotFinished st)
                    | Panics \<Rightarrow> Panics
                    | Blocks \<Rightarrow> Blocks)
            | None \<Rightarrow> Blocks))"

definition SetCheckpoint ::
  "bytes \<Rightarrow> selectCase \<Rightarrow> bytes \<Rightarrow> leavesChan \<Rightarrow> snapshotStats \<Rightarrow> trieStorageManager
     \<Rightarrow> (trieStorageManager \<times> leavesChan \<times> snapshotStats) outcome" where
  "SetCheckpoint EmptyTrieHash pick root ch st tsm =
     (if isClosed tsm then
        (case safelyCloseChan ch of
           Returns ch' \<Rightarrow> Returns (tsm, ch', SnapshotFinished st)
         | Panics \<Rightarrow> Panics
         | Blocks \<Rightarrow> Blocks)
      else if root = EmptyTrieHash then
        (case safelyCloseChan ch of
           Returns ch' \<Rightarrow> Returns (tsm, ch', SnapshotFinished st)
         | Panics \<Rightarrow> Panics
         | Blocks \<Rightarrow> Blocks)
      else
        (let tsm1 = EnterPruningBufferingMode tsm;
             checkpointEntry = \<lparr>rootHash = root, leavesChan = ch, stats = st\<rparr>
         in case selectReady pick (length (checkpointReq tsm1)) (snapshotsBufferLen tsm1)
                   (closerClosed tsm1) of
              Some SendCase \<Rightarrow>
                Returns (tsm1\<lparr>checkpointReq := checkpointReq tsm1 @ [checkpointEntry]\<rparr>, ch, st)
            | Some CloserCase \<Rightarrow>
                (let tsm2 = ExitPruningBufferingMode tsm1
                 in case safelyCloseChan ch of
                      Returns ch' \<Rightarrow> Returns (tsm2, ch', SnapshotFinished st)
                    | Panics \<Rightarrow> Panics
                    | Blocks \<Rightarrow> Blocks)
            | None \<Rightarrow> Blocks))"

subsection \<open>The snapshot worker's activity check\<close>

text \<open>
  \<open>isActiveDb\<close> reads the \<open>activeDB\<close> key through a \<open>snapshotTrieStorageManager\<close>, whose
  \<open>Get\<close> is not part of the sources: the answers of that \<open>Get\<close> are the parameter. The
  arguments of \<open>log.Debug\<close> are evaluated before the call, and \<open>err.Error()\<close> on a nil
  error is a nil dereference.
\<close>

definition isActiveDb :: "(bytes \<Rightarrow> bytes \<times> error option) \<Rightarrow> bool outcome" where
  "isActiveDb stsmGet =
     (let (val, err) = stsmGet activeDBKey
      in if val = activeDBVal then Returns True
         else (case err of None \<Rightarrow> Panics | Some e \<Rightarrow> Returns False))"

subsection \<open>Closing the legacy storage, epoch confirmation, Close\<close>

text \<open>
  The loop of \<open>closeOldTrieStorage\<close> over the snapshot stores: every store is closed, the
  last error seen is kept.
\<close>

fun closeSnapshots :: "error option \<Rightarrow> storer list \<Rightarrow> error option \<times> storer list" where
  "closeSnapshots err [] = (err, [])"
| "closeSnapshots err (sdb # rest) =
     (let (errSnapshotClose, sdb') = storer_Close sdb;
          err' = (case errSnapshotClose of Some e \<Rightarrow> Some e | None \<Rightarrow> err);
          (errLast, rest') = closeSnapshots err' rest
      in (errLast, sdb' # rest'))"

definition closeOldTrieStorage :: "trieStorageManager \<Rightarrow> error option \<times> trieStorageManager" where
  "closeOldTrieStorage tsm =
     (let (err, db') = storer_Close (db tsm);
          (err', snapshots') = closeSnapshots err (snapshots tsm)
      in (err', tsm\<lparr>db := db', snapshots := snapshots', oldStorageClosed := True\<rparr>))"

definition EpochConfirmed :: "32 word \<Rightarrow> trieStorageManager \<Rightarrow> trieStorageManager" where
  "EpochConfirmed epoch tsm =
     (let tsm1 = tsm\<lparr>flagDisableOldStorage :=
                    Toggle (disableOldStorageEpoch tsm \<le> epoch) (flagDisableOldStorage tsm)\<rparr>;
          (err, main') = storer_Put activeDBKey activeDBVal (mainStorer tsm1);
          tsm2 = tsm1\<lparr>mainStorer := main'\<rparr>
      in if flagDisableOldStorage tsm2 \<and> \<not> oldStorageClosed tsm2
         then snd (closeOldTrieStorage tsm2)
         else tsm2)"

fun epochsConfirmed :: "32 word list \<Rightarrow> trieStorageManager \<Rightarrow> trieStorageManager" where
  "epochsConfirmed [] tsm = tsm"
| "epochsConfirmed (epoch # epochs) tsm = epochsConfirmed epochs (EpochConfirmed epoch tsm)"

text \<open>
  \<open>Close\<close>: the deferred \<open>closer.Close()\<close> runs last; every store is closed whatever the
  earlier ones returned, and the last error seen is wrapped.
\<close>

definition Close :: "trieStorageManager \<Rightarrow> error option \<times> trieStorageManager" where
  "Close tsm =
     (let tsm1 = tsm\<lparr>cancelled := True, closed := True\<rparr>;
          (err, tsm2) = (if \<not> flagDisableOldStorage tsm1 then closeOldTrieStorage tsm1
                         else (None, tsm1));
          (errMainStorerClose, main') = storer_Close (mainStorer tsm2);
          err1 = (case errMainStorerClose of Some e \<Rightarrow> Some e | None \<Rightarrow> err);
          (errCheckpointsStorerClose, checkpoints') = storer_Close (checkpointsStorer tsm2);
          err2 = (case errCheckpointsStorerClose of Some e \<Rightarrow> Some e | None \<Rightarrow> err1);
          tsm3 = tsm2\<lparr>mainStorer := main', checkpointsStorer := checkpoints',
                       closerClosed := True\<rparr>
      in (case err2 of Some e \<Rightarrow> (Some (CloseFailed e), tsm3) | None \<Rightarrow> (None, tsm3)))"

subsection \<open>The read path as the specification words it\<close>

text \<open>
  The specification's reading of \<open>Get\<close>: the layers in their fixed order (the main store,
  the checkpoint store and, while the legacy storage is not disabled, the legacy db and
  the legacy snapshot generations from the most recent to the oldest), and the first of
  them that holds a non-empty value for the key.
\<close>

definition activeLayers :: "trieStorageManager \<Rightarrow> storer list" where
  "activeLayers tsm =
     mainStorer tsm # checkpointsStorer tsm #
       (if flagDisableOldStorage tsm then [] else db tsm # rev (snapshots tsm))"

definition hit :: "bytes \<Rightarrow> storer \<Rightarrow> bool" where
  "hit key st = (fst (storer_Get st key) \<noteq> [])"

definition firstHit :: "bytes \<Rightarrow> storer list \<Rightarrow> bytes \<times> error option" where
  "firstHit key layers =
     (case find (hit key) layers of
        Some st \<Rightarrow> (fst (storer_Get st key), None)
      | None \<Rightarrow> ([], Some ErrKeyNotFound))"

subsection \<open>The constructor\<close>

text \<open>
  \<open>NewTrieStorageManager\<close>. An argument that \<open>check.IfNil\<close> finds nil is \<open>None\<close>. Three
  collaborators have no code in the sources and are parameters. The epoch notifier is
  given by what \<open>RegisterNotifyHandler\<close> does with the new handler: the epoch it confirms
  to it at once, if it confirms one. \<open>throttlerErr\<close> is the error of
  \<open>NewNumGoRoutinesThrottler\<close>. \<open>restored\<close> are the snapshot stores that
  \<open>getSnapshotsAndSnapshotId\<close> finds on disk, in their order (its error is only
  logged). The dispatcher goroutine the constructor starts is not part of the model.
\<close>

type_synonym epochNotifier = "32 word option"

record NewTrieStorageManagerArgs =
  EpochNotifier :: "epochNotifier option"
  DisableOldTrieStorageEpoch :: "32 word"
  DB :: "storer option"
  MainStorer :: "storer option"
  CheckpointsStorer :: "storer option"
  Marshalizer :: "unit option"
  Hasher :: "unit option"
  SnapshotsBufferLen :: nat
  CheckpointHashesHolder :: "checkpointHashes option"

definition NewTrieStorageManager ::
  "NewTrieStorageManagerArgs \<Rightarrow> error option \<Rightarrow> storer list \<Rightarrow> error + trieStorageManager" where
  "NewTrieStorageManager args throttlerErr restored =
     (case DB args of
        None \<Rightarrow> Inl ErrNilDatabase
      | Some argDB \<Rightarrow>
     (case MainStorer args of
        None \<Rightarrow> Inl (ErrNilStorer ''main storer'')
      | Some argMainStorer \<Rightarrow>
     (case CheckpointsStorer args of
        None \<Rightarrow> Inl (ErrNilStorer ''checkpoints storer'')
      | Some argCheckpointsStorer \<Rightarrow>
     (case Marshalizer args of
        None \<Rightarrow> Inl ErrNilMarshalizer
      | Some msh \<Rightarrow>
     (case Hasher args of
        None \<Rightarrow> Inl ErrNilHasher
      | Some hsh \<Rightarrow>
     (case CheckpointHashesHolder args of
        None \<Rightarrow> Inl ErrNilCheckpointHashesHolder
      | Some argHolder \<Rightarrow>
     (case EpochNotifier args of
        None \<Rightarrow> Inl ErrNilEpochNotifier
      | Some notifier \<Rightarrow>
          (let tsm =
                 \<lparr>mainStorer = argMainStorer, pruningBlockingOps = 0, snapshotReq = [],
                  checkpointReq = [], snapshotsBufferLen = SnapshotsBufferLen args,
                  checkpointsStorer = argCheckpointsStorer,
                  checkpointHashesHolder = argHolder, cancelled = False,
                  closerClosed = False, closed = False, db = argDB, snapshots = [],
                  flagDisableOldStorage = False,
                  disableOldStorageEpoch = DisableOldTrieStorageEpoch args,
                  oldStorageClosed = False\<rparr>
           in case throttlerErr of
                Some e \<Rightarrow> Inl e
              | None \<Rightarrow>
                  (let tsm1 = (case notifier of
                                 Some epoch \<Rightarrow> EpochConfirmed epoch tsm
                               | None \<Rightarrow> tsm)
                   in if flagDisableOldStorage tsm1 then
                        (let (err, db') = storer_Close (db tsm1)
                         in case err of
                              Some e \<Rightarrow> Inl e
                            | None \<Rightarrow> Inr (tsm1\<lparr>db := db', oldStorageClosed := True\<rparr>))
                      else Inr (tsm1\<lparr>snapshots := restored\<rparr>))))))))))"

subsection \<open>Concrete managers\<close>

text \<open>
  A backend that holds the given pairs and answers every other key with an empty value
  and an error; a manager state with the given threshold, queue capacity and stores, its
  counter at 0, its flag unset and its legacy storage open; and constructor arguments
  from which \<open>NewTrieStorageManager\<close> builds such a state when the notifier confirms
  no epoch at registration.
\<close>

definition storerOf :: "(bytes \<times> bytes) list \<Rightarrow> storer" where
  "storerOf kvs =
     \<lparr>reads = (\<lambda>key. case map_of kvs key of
                       Some v \<Rightarrow> (v, None)
                     | None \<Rightarrow> ([], Some (BackendError ''key not found''))),
      writeFault = None, closeFault = None, closeCalls = 0\<rparr>"

definition managerOf ::
  "32 word \<Rightarrow> nat \<Rightarrow> storer \<Rightarrow> storer \<Rightarrow> storer \<Rightarrow> storer list \<Rightarrow> trieStorageManager" where
  "managerOf epoch bufferLen main checkpoints legacy legacySnapshots =
     \<lparr>mainStorer = main, pruningBlockingOps = 0, snapshotReq = [], checkpointReq = [],
      snapshotsBufferLen = bufferLen, checkpointsStorer = checkpoints,
      checkpointHashesHolder = [], cancelled = False, closerClosed = False, closed = False,
      db = legacy, snapshots = legacySnapshots, flagDisableOldStorage = False,
      disableOldStorageEpoch = epoch, oldStorageClosed = False\<rparr>"

definition exampleManager :: trieStorageManager where
  "exampleManager =
     managerOf 3 2 (storerOf []) (storerOf [(''k'', ''old'')]) (storerOf [])
       [storerOf [(''g'', ''gen0'')], storerOf [(''g'', ''gen1'')]]"

definition exampleArgs :: "epochNotifier \<Rightarrow> NewTrieStorageManagerArgs" where
  "exampleArgs notifier =
     \<lparr>EpochNotifier = Some notifier, DisableOldTrieStorageEpoch = 3,
      DB = Some (storerOf []), MainStorer = Some (storerOf []),
      CheckpointsStorer = Some (storerOf [(''k'', ''old'')]), Marshalizer = Some (),
      Hasher = Some (), SnapshotsBufferLen = 2, CheckpointHashesHolder = Some []\<rparr>"

definition exampleEmptyTrieHash :: bytes where
  "exampleEmptyTrieHash = replicate 32 (CHR 0x00)"

text \<open>
  A backend whose every call fails with an input/output error, and a manager whose main
  store holds two nodes that the tracker lists as pending, one of them also saved in the
  checkpoint store.
\<close>

definition brokenStorer :: storer where
  "brokenStorer =
     \<lparr>reads = (\<lambda>key. ([], Some (BackendError ''input/output error''))),
      writeFault = Some (BackendError ''input/output error''),
      closeFault = Some (BackendError ''input/output error''), closeCalls = 0\<rparr>"

definition trackedManager :: trieStorageManager where
  "trackedManager =
     (managerOf 3 2 (storerOf [(''h1'', ''node1''), (''h2'', ''node2'')])
        (storerOf [(''h1'', ''saved1'')]) (storerOf []) [])
       \<lparr>checkpointHashesHolder := [(''root'', [''h1'', ''h2''])]\<rparr>"

section \<open>The pruning-block counter\<close>

lemma exit_unat:
  "unat (pruningBlockingOps (ExitPruningBufferingMode tsm)) = unat (pruningBlockingOps tsm) - 1"
  by (simp add: ExitPruningBufferingMode_def unat_minus_one)

lemma exit_uint:
  "uint (pruningBlockingOps (ExitPruningBufferingMode tsm))
     = max 0 (uint (pruningBlockingOps tsm) - 1)"
proof -
  have "int (unat (pruningBlockingOps (ExitPruningBufferingMode tsm)))
        = int (unat (pruningBlockingOps tsm) - 1)"
    by (simp only: exit_unat)
  also have "\<dots> = max 0 (int (unat (pruningBlockingOps tsm)) - 1)"
    by arith
  finally show ?thesis by simp
qed

lemma enter_unat_le:
  "unat (pruningBlockingOps (EnterPruningBufferingMode tsm)) \<le> Suc (unat (pruningBlockingOps tsm))"
  by (simp add: EnterPruningBufferingMode_def unat_word_ariths)

lemma pruningCalls_bound:
  "unat (pruningBlockingOps (pruningCalls cs tsm))
     \<le> unat (pruningBlockingOps tsm) + count_list cs Enter"
proof (induction cs arbitrary: tsm)
  case Nil
  show ?case by simp
next
  case (Cons c cs)
  show ?case
  proof (cases c)
    case Enter
    have "unat (pruningBlockingOps (pruningCalls cs (EnterPruningBufferingMode tsm)))
          \<le> unat (pruningBlockingOps (EnterPruningBufferingMode tsm)) + count_list cs Enter"
      by (rule Cons.IH)
    also have "\<dots> \<le> Suc (unat (pruningBlockingOps tsm)) + count_list cs Enter"
      using enter_unat_le [of tsm] by simp
    finally show ?thesis using Enter by simp
  next
    case Exit
    have "unat (pruningBlockingOps (pruningCalls cs (ExitPruningBufferingMode tsm)))
          \<le> unat (pruningBlockingOps (ExitPruningBufferingMode tsm)) + count_list cs Enter"
      by (rule Cons.IH)
    also have "\<dots> \<le> unat (pruningBlockingOps tsm) + count_list cs Enter"
      by (simp add: exit_unat)
    finally show ?thesis using Exit by simp
  qed
qed

lemma pruningCalls_append:
  "pruningCalls (as @ bs) tsm = pruningCalls bs (pruningCalls as tsm)"
  by (induction as arbitrary: tsm) simp_all

lemma exits_unat:
  "unat (pruningBlockingOps (pruningCalls (replicate n Exit) tsm))
     = unat (pruningBlockingOps tsm) - n"
  by (induction n arbitrary: tsm) (simp_all add: exit_unat)

lemma enters_unat_le:
  "unat (pruningBlockingOps (pruningCalls (replicate n Enter) tsm))
     \<le> unat (pruningBlockingOps tsm) + n"
proof (induction n arbitrary: tsm)
  case 0
  show ?case by simp
next
  case (Suc n)
  have "unat (pruningBlockingOps (pruningCalls (replicate n Enter) (EnterPruningBufferingMode tsm)))
        \<le> unat (pruningBlockingOps (EnterPruningBufferingMode tsm)) + n"
    by (rule Suc.IH)
  also have "\<dots> \<le> Suc (unat (pruningBlockingOps tsm)) + n"
    using enter_unat_le [of tsm] by simp
  finally show ?case by simp
qed

lemma balanced_calls_unblock:
  assumes "pruningBlockingOps tsm = 0"
  shows "\<not> IsPruningBlocked (pruningCalls (replicate n Enter @ replicate n Exit) tsm)"
proof -
  have "unat (pruningBlockingOps (pruningCalls (replicate n Enter) tsm)) \<le> n"
    using enters_unat_le [of n tsm] assms by simp
  then have "unat (pruningBlockingOps (pruningCalls (replicate n Enter @ replicate n Exit) tsm)) = 0"
    by (simp add: pruningCalls_append exits_unat)
  then show ?thesis
    by (simp add: IsPruningBlocked_def unat_eq_0)
qed

lemma exit_at_zero: "pruningBlockingOps tsm = 0 \<Longrightarrow> ExitPruningBufferingMode tsm = tsm"
  by (simp add: ExitPruningBufferingMode_def)

text \<open>
  C4. In every sequence of \<open>EnterPruningBufferingMode\<close> and \<open>ExitPruningBufferingMode\<close>
  calls the counter never goes below zero: it is an unsigned 32-bit value that no
  sequence of calls wraps downwards (it never exceeds its starting value plus the number
  of Enter calls), and one Exit takes it to the maximum of 0 and its value minus 1.
  Starting from a counter of 0, \<open>n\<close> Enter calls followed by \<open>n\<close> Exit calls leave
  \<open>IsPruningBlocked\<close> false, and an Exit at 0 leaves the manager as it is.
\<close>

theorem pruning_counter_floor:
  "unat (pruningBlockingOps (pruningCalls calls tsm))
       \<le> unat (pruningBlockingOps tsm) + count_list calls Enter
   \<and> uint (pruningBlockingOps (ExitPruningBufferingMode tsm))
       = max 0 (uint (pruningBlockingOps tsm) - 1)
   \<and> (pruningBlockingOps tsm = 0 \<longrightarrow>
        \<not> IsPruningBlocked (pruningCalls (replicate n Enter @ replicate n Exit) tsm))
   \<and> (pruningBlockingOps tsm = 0 \<longrightarrow> ExitPruningBufferingMode tsm = tsm)"
  using pruningCalls_bound [of calls tsm] exit_uint [of tsm] balanced_calls_unblock [of tsm n]
    exit_at_zero [of tsm]
  by blast

theorem pruning_counter_floor_witness:
  "pruningBlockingOps exampleManager = 0
   \<and> \<not> IsPruningBlocked (pruningCalls (replicate 3 Enter @ replicate 3 Exit) exampleManager)
   \<and> ExitPruningBufferingMode exampleManager = exampleManager
   \<and> unat (pruningBlockingOps (pruningCalls [Enter, Enter, Enter, Exit, Exit] exampleManager)) \<le> 3"
proof -
  have z: "pruningBlockingOps exampleManager = 0"
    by (simp add: exampleManager_def managerOf_def)
  show ?thesis
    using z pruning_counter_floor [of "[Enter, Enter, Enter, Exit, Exit]" exampleManager 3]
    by simp
qed

section \<open>The read path\<close>

lemma getFromSnapshots_firstHit:
  "n \<le> length snaps \<Longrightarrow> getFromSnapshots snaps n key = firstHit key (rev (take n snaps))"
proof (induction n)
  case 0
  show ?case by (simp add: firstHit_def)
next
  case (Suc n)
  then have n: "n < length snaps" by simp
  have "rev (take (Suc n) snaps) = snaps ! n # rev (take n snaps)"
    using n by (simp add: take_Suc_conv_app_nth)
  with Suc show ?case
    by (simp add: firstHit_def hit_def Let_def)
qed

lemma getFromOtherStorers_firstHit:
  "getFromOtherStorers key tsm = firstHit key (tl (activeLayers tsm))"
  using getFromSnapshots_firstHit [of "length (snapshots tsm)" "snapshots tsm" key]
  by (simp add: getFromOtherStorers_def activeLayers_def firstHit_def hit_def Let_def)

lemma firstHit_Cons:
  "firstHit key (st # layers) =
     (if hit key st then (fst (storer_Get st key), None) else firstHit key layers)"
  by (simp add: firstHit_def)

lemma Get_firstHit: "fst (Get key tsm) = firstHit key (activeLayers tsm)"
proof -
  have "activeLayers tsm = mainStorer tsm # tl (activeLayers tsm)"
    by (simp add: activeLayers_def)
  then have "firstHit key (activeLayers tsm) =
      (if hit key (mainStorer tsm) then (fst (storer_Get (mainStorer tsm) key), None)
       else firstHit key (tl (activeLayers tsm)))"
    using firstHit_Cons [of key "mainStorer tsm" "tl (activeLayers tsm)"] by simp
  then show ?thesis
    by (simp add: Get_def Let_def hit_def getFromOtherStorers_firstHit)
qed

lemma firstHit_notfound:
  "(firstHit key layers = ([], Some ErrKeyNotFound)) = list_all (\<lambda>st. \<not> hit key st) layers"
  by (induction layers) (simp_all add: firstHit_Cons, simp add: firstHit_def)

lemma firstHit_found:
  "(snd (firstHit key layers) = None) = list_ex (hit key) layers"
  by (induction layers) (simp_all add: firstHit_Cons, simp add: firstHit_def)

lemma firstHit_cases:
  "(snd (firstHit key layers) = None \<and> fst (firstHit key layers) \<noteq> [])
     \<or> firstHit key layers = ([], Some ErrKeyNotFound)"
  by (induction layers) (simp_all add: firstHit_Cons hit_def, simp add: firstHit_def)

lemma firstHit_values:
  "map (\<lambda>st. fst (storer_Get st key)) layers = map (\<lambda>st. fst (storer_Get st key)) layers'
     \<Longrightarrow> firstHit key layers = firstHit key layers'"
proof (induction layers arbitrary: layers')
  case Nil
  then show ?case by simp
next
  case (Cons st layers)
  then obtain st' rest' where l': "layers' = st' # rest'" by (cases layers') auto
  with Cons.prems have h: "fst (storer_Get st key) = fst (storer_Get st' key)"
    and t: "map (\<lambda>st. fst (storer_Get st key)) layers = map (\<lambda>st. fst (storer_Get st key)) rest'"
    by simp_all
  have "firstHit key layers = firstHit key rest'" using Cons.IH [OF t] .
  then show ?case using h l'
    by (simp add: firstHit_Cons hit_def)
qed

text \<open>
  C5. For every key, \<open>Get\<close> answers with the first layer that holds a non-empty value
  for it, the layers taken in the fixed order main store, checkpoint store and, only
  while the legacy storage is not disabled, legacy db and legacy snapshot generations
  from the most recent to the oldest; it answers not-found exactly when no active layer
  holds the key; and it leaves the manager, with all its stores, as it was.
\<close>

theorem Get_layer_order:
  "fst (Get key tsm) = firstHit key (activeLayers tsm)
   \<and> (fst (Get key tsm) = ([], Some ErrKeyNotFound))
       = list_all (\<lambda>st. \<not> hit key st) (activeLayers tsm)
   \<and> snd (Get key tsm) = tsm"
proof -
  have "snd (Get key tsm) = tsm" by (simp add: Get_def Let_def)
  then show ?thesis
    using Get_firstHit [of key tsm] firstHit_notfound [of key "activeLayers tsm"] by simp
qed

theorem Get_layer_order_witness:
  "fst (Get ''g'' exampleManager) = (''gen1'', None)
   \<and> fst (Get ''k'' exampleManager) = (''old'', None)
   \<and> fst (Get ''g'' (exampleManager\<lparr>flagDisableOldStorage := True\<rparr>))
       = ([], Some ErrKeyNotFound)"
proof -
  have l: "activeLayers exampleManager =
      [storerOf [], storerOf [(''k'', ''old'')], storerOf [],
       storerOf [(''g'', ''gen1'')], storerOf [(''g'', ''gen0'')]]"
    and d: "activeLayers (exampleManager\<lparr>flagDisableOldStorage := True\<rparr>) =
      [storerOf [], storerOf [(''k'', ''old'')]]"
    by (simp_all add: activeLayers_def exampleManager_def managerOf_def)
  have h: "\<not> hit ''g'' (storerOf [])" "\<not> hit ''g'' (storerOf [(''k'', ''old'')])"
    "hit ''g'' (storerOf [(''g'', ''gen1'')])" "\<not> hit ''k'' (storerOf [])"
    "hit ''k'' (storerOf [(''k'', ''old'')])"
    by (simp_all add: hit_def storer_Get_def storerOf_def)
  have v: "fst (storer_Get (storerOf [(''g'', ''gen1'')]) ''g'') = ''gen1''"
    "fst (storer_Get (storerOf [(''k'', ''old'')]) ''k'') = ''old''"
    by (simp_all add: storer_Get_def storerOf_def)
  have n: "firstHit ''g'' [] = ([], Some ErrKeyNotFound)"
    by (simp add: firstHit_def)
  show ?thesis
    using Get_layer_order [of "''g''" exampleManager] Get_layer_order [of "''k''" exampleManager]
      Get_layer_order [of "''g''" "exampleManager\<lparr>flagDisableOldStorage := True\<rparr>"]
    by (simp add: l d h v n firstHit_Cons)
qed

text \<open>
  C10. \<open>Get\<close> never hands on an error of a backend: for every key it returns either
  a non-empty value with a nil error or an empty value with \<open>ErrKeyNotFound\<close>. Its
  answer is a function of the values the layers return alone: whatever errors the
  backends report, two managers whose active layers return the same values for the key
  give the same answer, so a layer that fails with an empty value cannot be told from a
  layer where the key is absent.
\<close>

theorem Get_swallows_backend_errors:
  "((snd (fst (Get key tsm)) = None \<and> fst (fst (Get key tsm)) \<noteq> [])
      \<or> fst (Get key tsm) = ([], Some ErrKeyNotFound))
   \<and> (map (\<lambda>st. fst (storer_Get st key)) (activeLayers tsm)
         = map (\<lambda>st. fst (storer_Get st key)) (activeLayers tsm')
       \<longrightarrow> fst (Get key tsm) = fst (Get key tsm'))"
  using firstHit_cases [of key "activeLayers tsm"]
    firstHit_values [of key "activeLayers tsm" "activeLayers tsm'"]
  by (simp add: Get_firstHit)

theorem Get_swallows_backend_errors_witness:
  "fst (Get ''g'' (exampleManager\<lparr>db := brokenStorer\<rparr>)) = fst (Get ''g'' exampleManager)
   \<and> fst (Get ''g'' exampleManager) = (''gen1'', None)
   \<and> fst (Get ''z'' (exampleManager\<lparr>db := brokenStorer\<rparr>)) = ([], Some ErrKeyNotFound)"
proof -
  have v: "map (\<lambda>st. fst (storer_Get st ''g'')) (activeLayers (exampleManager\<lparr>db := brokenStorer\<rparr>))
      = map (\<lambda>st. fst (storer_Get st ''g'')) (activeLayers exampleManager)"
    by (simp add: activeLayers_def exampleManager_def managerOf_def storer_Get_def
        storerOf_def brokenStorer_def)
  have g: "fst (Get ''g'' exampleManager) = (''gen1'', None)"
    by (simp add: Get_def getFromOtherStorers_def exampleManager_def managerOf_def
        storer_Get_def storerOf_def Let_def numeral_2_eq_2)
  have z: "fst (Get ''z'' (exampleManager\<lparr>db := brokenStorer\<rparr>)) = ([], Some ErrKeyNotFound)"
    by (simp add: Get_def getFromOtherStorers_def exampleManager_def managerOf_def
        storer_Get_def storerOf_def brokenStorer_def Let_def numeral_2_eq_2)
  show ?thesis
    using v g z Get_swallows_backend_errors [of "''g''" "exampleManager\<lparr>db := brokenStorer\<rparr>" exampleManager]
    by simp
qed

section \<open>Put and Remove\<close>

lemma Put_frame:
  "checkpointsStorer (snd (Put key val tsm)) = checkpointsStorer tsm
   \<and> db (snd (Put key val tsm)) = db tsm
   \<and> snapshots (snd (Put key val tsm)) = snapshots tsm
   \<and> flagDisableOldStorage (snd (Put key val tsm)) = flagDisableOldStorage tsm
   \<and> checkpointHashesHolder (snd (Put key val tsm)) = checkpointHashesHolder tsm"
  by (simp add: Put_def case_prod_beta)

lemma Put_main:
  "fst (Put key val tsm) = None \<Longrightarrow>
     storer_Get (mainStorer (snd (Put key val tsm))) key = (val, None)"
  by (auto simp: Put_def storer_Put_def storer_Get_def split: option.splits)

lemma Put_Get:
  assumes "fst (Put key val tsm) = None" and "val \<noteq> []"
  shows "fst (Get key (snd (Put key val tsm))) = (val, None)"
  using assms Put_main [OF assms(1)] by (simp add: Get_def Let_def)

lemma Put_error: "fst (Put key val tsm) = fst (storer_Put key val (mainStorer tsm))"
  by (simp add: Put_def case_prod_beta)

lemma Put_empty_Get:
  assumes "fst (Put key [] tsm) = None"
  shows "fst (Get key (snd (Put key [] tsm))) = getFromOtherStorers key tsm"
proof -
  have m: "storer_Get (mainStorer (snd (Put key [] tsm))) key = ([], None)"
    using Put_main [OF assms] .
  have "tl (activeLayers (snd (Put key [] tsm))) = tl (activeLayers tsm)"
    using Put_frame [of key "[]" tsm] by (simp add: activeLayers_def)
  then have "getFromOtherStorers key (snd (Put key [] tsm)) = getFromOtherStorers key tsm"
    by (simp add: getFromOtherStorers_firstHit)
  then show ?thesis using m by (simp add: Get_def Let_def)
qed

text \<open>
  C6, as the specification states it, fails on two inputs. For an empty value: \<open>Get\<close>
  takes an empty value in the main store for a miss and goes on to the other layers, so
  after a \<open>Put\<close> of the empty value that succeeds, \<open>Get\<close> returns the old value of the
  checkpoint store, or not-found where no other layer holds the key. For a main store
  that refuses the write: \<open>Put\<close> returns the store's error, and the \<open>Get\<close> that follows
  returns the old value of the checkpoint store, not the value given to \<open>Put\<close>.
\<close>

theorem Put_empty_value_counterexample:
  "fst (Put ''k'' [] exampleManager) = None
   \<and> fst (Get ''k'' (snd (Put ''k'' [] exampleManager))) \<noteq> ([], None)
   \<and> fst (Get ''k'' (snd (Put ''k'' [] exampleManager))) = (''old'', None)
   \<and> fst (Get ''n'' (snd (Put ''n'' [] exampleManager))) = ([], Some ErrKeyNotFound)
   \<and> fst (Put ''k'' ''new'' (exampleManager\<lparr>mainStorer := brokenStorer\<rparr>))
       = Some (BackendError ''input/output error'')
   \<and> fst (Get ''k'' (snd (Put ''k'' ''new'' (exampleManager\<lparr>mainStorer := brokenStorer\<rparr>))))
       = (''old'', None)"
  by (simp add: Put_def storer_Put_def Get_def getFromOtherStorers_def exampleManager_def
      managerOf_def storer_Get_def storerOf_def brokenStorer_def Let_def numeral_2_eq_2)

text \<open>
  C6, amended. For every key and value, \<open>Put\<close> leaves the checkpoint store, the legacy
  db and the legacy snapshot stores unchanged and returns the error of the main store's
  \<open>Put\<close>. When it returns no error: for a value that is not empty, the \<open>Get\<close> of the
  key that follows returns that value; for the empty value, the \<open>Get\<close> that follows
  takes the main store's entry for a miss and answers as \<open>getFromOtherStorers\<close> does
  on the manager before the \<open>Put\<close>, that is with the first hit among the checkpoint
  store and the active legacy layers, not-found when there is none.
\<close>

theorem Put_then_Get:
  "checkpointsStorer (snd (Put key val tsm)) = checkpointsStorer tsm
   \<and> db (snd (Put key val tsm)) = db tsm
   \<and> snapshots (snd (Put key val tsm)) = snapshots tsm
   \<and> fst (Put key val tsm) = fst (storer_Put key val (mainStorer tsm))
   \<and> (fst (Put key val tsm) = None \<and> val \<noteq> []
        \<longrightarrow> fst (Get key (snd (Put key val tsm))) = (val, None))
   \<and> (fst (Put key [] tsm) = None
        \<longrightarrow> fst (Get key (snd (Put key [] tsm))) = getFromOtherStorers key tsm
          \<and> fst (Get key (snd (Put key [] tsm))) = firstHit key (tl (activeLayers tsm)))"
  using Put_frame [of key val tsm] Put_Get [of key val tsm] Put_empty_Get [of key tsm]
    Put_error [of key val tsm]
  by (simp add: getFromOtherStorers_firstHit)

theorem Put_then_Get_witness:
  "fst (Put ''k'' ''new'' exampleManager) = None
   \<and> fst (Get ''k'' (snd (Put ''k'' ''new'' exampleManager))) = (''new'', None)
   \<and> fst (Get ''k'' exampleManager) = (''old'', None)
   \<and> fst (Put ''k'' [] exampleManager) = None
   \<and> fst (Get ''k'' (snd (Put ''k'' [] exampleManager))) = (''old'', None)"
proof -
  have p: "fst (Put ''k'' ''new'' exampleManager) = None"
    and q: "fst (Put ''k'' [] exampleManager) = None"
    by (simp_all add: Put_def storer_Put_def exampleManager_def managerOf_def storerOf_def)
  have o: "fst (Get ''k'' exampleManager) = (''old'', None)"
    and f: "getFromOtherStorers ''k'' exampleManager = (''old'', None)"
    by (simp_all add: Get_def getFromOtherStorers_def exampleManager_def managerOf_def
        storer_Get_def storerOf_def Let_def)
  show ?thesis
    using p q o f Put_then_Get [of "''k''" "''new''" exampleManager]
      Put_then_Get [of "''k''" "[]" exampleManager]
    by simp
qed

lemma Remove_frame:
  "checkpointsStorer (snd (Remove hash tsm)) = checkpointsStorer tsm
   \<and> db (snd (Remove hash tsm)) = db tsm
   \<and> snapshots (snd (Remove hash tsm)) = snapshots tsm
   \<and> flagDisableOldStorage (snd (Remove hash tsm)) = flagDisableOldStorage tsm"
  by (simp add: Remove_def Let_def case_prod_beta)

lemma Remove_tl_layers:
  "tl (activeLayers (snd (Remove hash tsm))) = tl (activeLayers tsm)"
  using Remove_frame [of hash tsm] by (simp add: activeLayers_def)

lemma Remove_holder:
  "hash \<notin> set (holder_pending (checkpointHashesHolder (snd (Remove hash tsm))))"
  by (auto simp: Remove_def Let_def case_prod_beta holder_pending_def holder_Remove_def)

lemma Remove_main:
  "fst (Remove hash tsm) = None \<Longrightarrow> \<not> hit hash (mainStorer (snd (Remove hash tsm)))"
  by (auto simp: Remove_def storer_Remove_def storer_Get_def hit_def Let_def split: option.splits)

lemma Remove_Get:
  assumes "fst (Remove hash tsm) = None"
  shows "fst (Get hash (snd (Remove hash tsm))) = firstHit hash (tl (activeLayers tsm))"
proof -
  have "fst (Get hash (snd (Remove hash tsm))) = getFromOtherStorers hash (snd (Remove hash tsm))"
    using Remove_main [OF assms] by (simp add: Get_def Let_def hit_def)
  then show ?thesis
    by (simp add: getFromOtherStorers_firstHit Remove_tl_layers)
qed

text \<open>
  C8. For every hash, \<open>Remove\<close> leaves the checkpoint store, the legacy db and the legacy
  snapshot stores unchanged and drops the hash from the tracker's pending hashes; when it
  returns no error the main store no longer holds the hash, and a \<open>Get\<close> of the hash
  that follows answers from the layers below the main store: it succeeds exactly when
  the checkpoint store or an active legacy layer holds the hash, and returns not-found
  otherwise.
\<close>

theorem Remove_only_main_and_tracker:
  "checkpointsStorer (snd (Remove hash tsm)) = checkpointsStorer tsm
   \<and> db (snd (Remove hash tsm)) = db tsm
   \<and> snapshots (snd (Remove hash tsm)) = snapshots tsm
   \<and> hash \<notin> set (holder_pending (checkpointHashesHolder (snd (Remove hash tsm))))
   \<and> (fst (Remove hash tsm) = None \<longrightarrow>
        \<not> hit hash (mainStorer (snd (Remove hash tsm)))
        \<and> fst (Get hash (snd (Remove hash tsm))) = firstHit hash (tl (activeLayers tsm))
        \<and> (snd (fst (Get hash (snd (Remove hash tsm)))) = None)
            = list_ex (hit hash) (tl (activeLayers tsm))
        \<and> (fst (Get hash (snd (Remove hash tsm))) = ([], Some ErrKeyNotFound))
            = list_all (\<lambda>st. \<not> hit hash st) (tl (activeLayers tsm)))"
  using Remove_frame [of hash tsm] Remove_holder [of hash tsm] Remove_main [of hash tsm]
    Remove_Get [of hash tsm] firstHit_found [of hash "tl (activeLayers tsm)"]
    firstHit_notfound [of hash "tl (activeLayers tsm)"]
  by simp

theorem Remove_only_main_and_tracker_witness:
  "fst (Remove ''h1'' trackedManager) = None
   \<and> fst (Get ''h1'' trackedManager) = (''node1'', None)
   \<and> fst (Get ''h1'' (snd (Remove ''h1'' trackedManager))) = (''saved1'', None)
   \<and> fst (Remove ''h2'' trackedManager) = None
   \<and> fst (Get ''h2'' (snd (Remove ''h2'' trackedManager))) = ([], Some ErrKeyNotFound)
   \<and> ''h1'' \<notin> set (holder_pending (checkpointHashesHolder (snd (Remove ''h1'' trackedManager))))"
proof -
  have r1: "fst (Remove ''h1'' trackedManager) = None"
    and r2: "fst (Remove ''h2'' trackedManager) = None"
    by (simp_all add: Remove_def storer_Remove_def trackedManager_def managerOf_def
        storerOf_def Let_def)
  have g: "fst (Get ''h1'' trackedManager) = (''node1'', None)"
    by (simp add: Get_def trackedManager_def managerOf_def storer_Get_def storerOf_def Let_def)
  have l: "tl (activeLayers trackedManager) = [storerOf [(''h1'', ''saved1'')], storerOf []]"
    by (simp add: activeLayers_def trackedManager_def managerOf_def)
  have f1: "firstHit ''h1'' [storerOf [(''h1'', ''saved1'')], storerOf []] = (''saved1'', None)"
    by (simp add: firstHit_Cons hit_def storer_Get_def storerOf_def)
  have f2: "firstHit ''h2'' [storerOf [(''h1'', ''saved1'')], storerOf []] = ([], Some ErrKeyNotFound)"
    by (simp add: firstHit_Cons hit_def storer_Get_def storerOf_def, simp add: firstHit_def)
  show ?thesis
    using r1 r2 g l f1 f2 Remove_only_main_and_tracker [of "''h1''" trackedManager]
      Remove_only_main_and_tracker [of "''h2''" trackedManager]
    by simp
qed

section \<open>Epoch confirmation\<close>

lemma EpochConfirmed_flag:
  "flagDisableOldStorage (EpochConfirmed epoch tsm) = (disableOldStorageEpoch tsm \<le> epoch)"
  by (simp add: EpochConfirmed_def closeOldTrieStorage_def Toggle_def Let_def case_prod_beta)

lemma EpochConfirmed_threshold:
  "disableOldStorageEpoch (EpochConfirmed epoch tsm) = disableOldStorageEpoch tsm"
  by (simp add: EpochConfirmed_def closeOldTrieStorage_def Toggle_def Let_def case_prod_beta)

lemma epochsConfirmed_threshold:
  "disableOldStorageEpoch (epochsConfirmed epochs tsm) = disableOldStorageEpoch tsm"
  by (induction epochs arbitrary: tsm) (simp_all add: EpochConfirmed_threshold)

lemma epochsConfirmed_sorted_flag:
  "sorted (e # es) \<Longrightarrow> disableOldStorageEpoch tsm \<le> e \<Longrightarrow> flagDisableOldStorage tsm
     \<Longrightarrow> flagDisableOldStorage (epochsConfirmed es tsm)"
proof (induction es arbitrary: e tsm)
  case Nil
  then show ?case by simp
next
  case (Cons e' es)
  have le: "e \<le> e'" using Cons.prems(1) by simp
  have s: "sorted (e' # es)" using Cons.prems(1) by simp
  have thr: "disableOldStorageEpoch (EpochConfirmed e' tsm) \<le> e'"
    using Cons.prems(2) le by (simp add: EpochConfirmed_threshold)
  have fl: "flagDisableOldStorage (EpochConfirmed e' tsm)"
    using Cons.prems(2) le by (simp add: EpochConfirmed_flag)
  show ?case using Cons.IH [OF s thr fl] by simp
qed

lemma sorted_take_Cons: "sorted (e # es) \<Longrightarrow> sorted (e # take n es)"
  by (metis sorted_wrt_take take_Suc_Cons)

text \<open>
  C1, as the specification states it, fails: the flag is recomputed on every call, so an
  epoch below the threshold that is confirmed after an epoch at or above it resets the
  flag. With the threshold at 3, confirming epoch 5 sets the flag and confirming epoch 2
  afterwards clears it.
\<close>

theorem flag_reverts_counterexample:
  "disableOldStorageEpoch exampleManager = 3
   \<and> flagDisableOldStorage (EpochConfirmed 5 exampleManager)
   \<and> \<not> flagDisableOldStorage (EpochConfirmed 2 (EpochConfirmed 5 exampleManager))"
  by (simp add: EpochConfirmed_flag EpochConfirmed_threshold exampleManager_def
      managerOf_def)

text \<open>
  C1, amended. After \<open>EpochConfirmed\<close> the flag says whether the confirmed epoch has
  reached the threshold. Along every run of calls whose epochs never decrease, once the
  flag is set it stays set after every further call of the run.
\<close>

theorem flag_monotonic_on_rising_epochs:
  "flagDisableOldStorage (EpochConfirmed epoch tsm) = (disableOldStorageEpoch tsm \<le> epoch)
   \<and> (sorted (epoch # epochs) \<and> flagDisableOldStorage (EpochConfirmed epoch tsm)
        \<longrightarrow> flagDisableOldStorage (epochsConfirmed (take n epochs) (EpochConfirmed epoch tsm)))"
proof -
  have "flagDisableOldStorage (epochsConfirmed (take n epochs) (EpochConfirmed epoch tsm))"
    if s: "sorted (epoch # epochs)" and f: "flagDisableOldStorage (EpochConfirmed epoch tsm)"
  proof -
    have thr: "disableOldStorageEpoch (EpochConfirmed epoch tsm) \<le> epoch"
      using f by (simp add: EpochConfirmed_flag EpochConfirmed_threshold)
    show ?thesis
      using epochsConfirmed_sorted_flag [OF sorted_take_Cons [OF s] thr f] .
  qed
  then show ?thesis
    using EpochConfirmed_flag [of epoch tsm] by blast
qed

theorem flag_monotonic_on_rising_epochs_witness:
  "sorted [3, 4, 4, 9 :: 32 word]
   \<and> flagDisableOldStorage (EpochConfirmed 3 exampleManager)
   \<and> flagDisableOldStorage (epochsConfirmed (take 2 [4, 4, 9]) (EpochConfirmed 3 exampleManager))
   \<and> flagDisableOldStorage (epochsConfirmed (take 3 [4, 4, 9]) (EpochConfirmed 3 exampleManager))"
proof -
  have s: "sorted [3, 4, 4, 9 :: 32 word]" by simp
  have f: "flagDisableOldStorage (EpochConfirmed 3 exampleManager)"
    by (simp add: EpochConfirmed_flag exampleManager_def managerOf_def)
  show ?thesis
    using s f flag_monotonic_on_rising_epochs [of 3 exampleManager "[4, 4, 9]" 2]
      flag_monotonic_on_rising_epochs [of 3 exampleManager "[4, 4, 9]" 3]
    by blast
qed

section \<open>Closing the legacy storage\<close>

lemma closeSnapshots_map:
  "snd (closeSnapshots err sdbs) = map (\<lambda>sdb. snd (storer_Close sdb)) sdbs"
  by (induction sdbs arbitrary: err) (simp_all add: Let_def case_prod_beta)

lemma closeOldTrieStorage_effect:
  "db (snd (closeOldTrieStorage tsm)) = snd (storer_Close (db tsm))
   \<and> snapshots (snd (closeOldTrieStorage tsm)) = map (\<lambda>sdb. snd (storer_Close sdb)) (snapshots tsm)
   \<and> oldStorageClosed (snd (closeOldTrieStorage tsm))"
  using closeSnapshots_map [of "fst (storer_Close (db tsm))" "snapshots tsm"]
  by (simp add: closeOldTrieStorage_def Let_def case_prod_beta)

lemma closeCalls_Close: "closeCalls (snd (storer_Close st)) = Suc (closeCalls st)"
  by (simp add: storer_Close_def)

lemma EpochConfirmed_closed_legacy:
  "oldStorageClosed tsm \<Longrightarrow>
     oldStorageClosed (EpochConfirmed epoch tsm) \<and> db (EpochConfirmed epoch tsm) = db tsm
     \<and> snapshots (EpochConfirmed epoch tsm) = snapshots tsm"
  by (simp add: EpochConfirmed_def Let_def case_prod_beta)

lemma epochsConfirmed_closed_legacy:
  "oldStorageClosed tsm \<Longrightarrow>
     oldStorageClosed (epochsConfirmed epochs tsm) \<and> db (epochsConfirmed epochs tsm) = db tsm
     \<and> snapshots (epochsConfirmed epochs tsm) = snapshots tsm"
proof (induction epochs arbitrary: tsm)
  case Nil
  then show ?case by simp
next
  case (Cons e es)
  from EpochConfirmed_closed_legacy [OF Cons.prems, of e]
  have c: "oldStorageClosed (EpochConfirmed e tsm)" and d: "db (EpochConfirmed e tsm) = db tsm"
    and sn: "snapshots (EpochConfirmed e tsm) = snapshots tsm" by simp_all
  show ?case using Cons.IH [OF c] d sn by simp
qed

lemma EpochConfirmed_below:
  "epoch < disableOldStorageEpoch tsm \<Longrightarrow>
     oldStorageClosed (EpochConfirmed epoch tsm) = oldStorageClosed tsm
     \<and> db (EpochConfirmed epoch tsm) = db tsm
     \<and> snapshots (EpochConfirmed epoch tsm) = snapshots tsm"
  by (simp add: EpochConfirmed_def Toggle_def Let_def case_prod_beta not_le [symmetric])

lemma epochsConfirmed_below:
  "list_all (\<lambda>e. e < disableOldStorageEpoch tsm) epochs \<Longrightarrow>
     oldStorageClosed (epochsConfirmed epochs tsm) = oldStorageClosed tsm
     \<and> db (epochsConfirmed epochs tsm) = db tsm
     \<and> snapshots (epochsConfirmed epochs tsm) = snapshots tsm"
proof (induction epochs arbitrary: tsm)
  case Nil
  then show ?case by simp
next
  case (Cons e es)
  have b: "e < disableOldStorageEpoch tsm" using Cons.prems by simp
  have r: "list_all (\<lambda>e'. e' < disableOldStorageEpoch (EpochConfirmed e tsm)) es"
    using Cons.prems by (simp add: EpochConfirmed_threshold)
  show ?case
    using Cons.IH [OF r] EpochConfirmed_below [OF b] by simp
qed

lemma EpochConfirmed_first:
  assumes a: "\<not> oldStorageClosed tsm" and b: "disableOldStorageEpoch tsm \<le> epoch"
  shows "flagDisableOldStorage (EpochConfirmed epoch tsm)
     \<and> oldStorageClosed (EpochConfirmed epoch tsm)
     \<and> db (EpochConfirmed epoch tsm) = snd (storer_Close (db tsm))
     \<and> snapshots (EpochConfirmed epoch tsm) = map (\<lambda>sdb. snd (storer_Close sdb)) (snapshots tsm)"
proof -
  define tsm2 where "tsm2 = tsm\<lparr>flagDisableOldStorage := True,
      mainStorer := snd (storer_Put activeDBKey activeDBVal (mainStorer tsm))\<rparr>"
  have e: "EpochConfirmed epoch tsm = snd (closeOldTrieStorage tsm2)"
    using a b by (simp add: EpochConfirmed_def Toggle_def Let_def tsm2_def case_prod_beta)
  have f: "flagDisableOldStorage (snd (closeOldTrieStorage tsm2))"
    by (simp add: closeOldTrieStorage_def Let_def tsm2_def case_prod_beta)
  show ?thesis
    using closeOldTrieStorage_effect [of tsm2] f unfolding e by (simp add: tsm2_def)
qed

lemma EpochConfirmed_close_cases:
  "(db (EpochConfirmed epoch tsm) = db tsm \<and> snapshots (EpochConfirmed epoch tsm) = snapshots tsm)
   \<or> (oldStorageClosed (EpochConfirmed epoch tsm)
       \<and> db (EpochConfirmed epoch tsm) = snd (storer_Close (db tsm))
       \<and> snapshots (EpochConfirmed epoch tsm)
           = map (\<lambda>sdb. snd (storer_Close sdb)) (snapshots tsm))"
proof (cases "disableOldStorageEpoch tsm \<le> epoch \<and> \<not> oldStorageClosed tsm")
  case True
  then show ?thesis using EpochConfirmed_first [of tsm epoch] by simp
next
  case False
  then have "db (EpochConfirmed epoch tsm) = db tsm
      \<and> snapshots (EpochConfirmed epoch tsm) = snapshots tsm"
    by (auto simp: EpochConfirmed_def Toggle_def Let_def case_prod_beta)
  then show ?thesis by simp
qed

lemma epochsConfirmed_close_cases:
  "(db (epochsConfirmed epochs tsm) = db tsm
      \<and> snapshots (epochsConfirmed epochs tsm) = snapshots tsm)
   \<or> (db (epochsConfirmed epochs tsm) = snd (storer_Close (db tsm))
       \<and> snapshots (epochsConfirmed epochs tsm)
           = map (\<lambda>sdb. snd (storer_Close sdb)) (snapshots tsm))"
proof (induction epochs arbitrary: tsm)
  case Nil
  show ?case by simp
next
  case (Cons e es)
  from EpochConfirmed_close_cases [of e tsm] show ?case
  proof
    assume same: "db (EpochConfirmed e tsm) = db tsm
        \<and> snapshots (EpochConfirmed e tsm) = snapshots tsm"
    show ?thesis using Cons.IH [of "EpochConfirmed e tsm"] same by simp
  next
    assume now: "oldStorageClosed (EpochConfirmed e tsm)
        \<and> db (EpochConfirmed e tsm) = snd (storer_Close (db tsm))
        \<and> snapshots (EpochConfirmed e tsm)
            = map (\<lambda>sdb. snd (storer_Close sdb)) (snapshots tsm)"
    then have c: "oldStorageClosed (EpochConfirmed e tsm)" by simp
    show ?thesis using epochsConfirmed_closed_legacy [OF c, of es] now by simp
  qed
qed

lemma epochsConfirmed_closeCalls:
  "(closeCalls (db (epochsConfirmed epochs tsm)) = closeCalls (db tsm)
      \<and> map closeCalls (snapshots (epochsConfirmed epochs tsm)) = map closeCalls (snapshots tsm))
   \<or> (closeCalls (db (epochsConfirmed epochs tsm)) = Suc (closeCalls (db tsm))
       \<and> map closeCalls (snapshots (epochsConfirmed epochs tsm))
           = map (\<lambda>sdb. Suc (closeCalls sdb)) (snapshots tsm))"
proof -
  have m: "map closeCalls (map (\<lambda>sdb. snd (storer_Close sdb)) (snapshots tsm))
      = map (\<lambda>sdb. Suc (closeCalls sdb)) (snapshots tsm)"
    by (simp add: closeCalls_Close)
  from epochsConfirmed_close_cases [of epochs tsm] show ?thesis
  proof
    assume "db (epochsConfirmed epochs tsm) = db tsm
      \<and> snapshots (epochsConfirmed epochs tsm) = snapshots tsm"
    then show ?thesis by simp
  next
    assume "db (epochsConfirmed epochs tsm) = snd (storer_Close (db tsm))
       \<and> snapshots (epochsConfirmed epochs tsm)
           = map (\<lambda>sdb. snd (storer_Close sdb)) (snapshots tsm)"
    then show ?thesis using m by (simp add: closeCalls_Close)
  qed
qed

text \<open>
  On its own the \<open>EpochConfirmed\<close> path keeps its guard. No run of \<open>EpochConfirmed\<close>
  calls closes the legacy db or a legacy snapshot store more than once: from a manager
  whose legacy storage is not closed yet, the calls below the threshold close nothing,
  the first call at or above the threshold sets the flag and \<open>oldStorageClosed\<close> and
  closes the legacy db and every legacy snapshot store once, and no later call closes
  any of them again.
\<close>

lemma epochsConfirmed_close_once:
  "((closeCalls (db (epochsConfirmed calls tsm)) = closeCalls (db tsm)
       \<and> map closeCalls (snapshots (epochsConfirmed calls tsm)) = map closeCalls (snapshots tsm))
     \<or> (closeCalls (db (epochsConfirmed calls tsm)) = Suc (closeCalls (db tsm))
       \<and> map closeCalls (snapshots (epochsConfirmed calls tsm))
           = map (\<lambda>sdb. Suc (closeCalls sdb)) (snapshots tsm)))
   \<and> (\<not> oldStorageClosed tsm
       \<and> list_all (\<lambda>e. e < disableOldStorageEpoch tsm) earlier
       \<and> disableOldStorageEpoch tsm \<le> epoch \<longrightarrow>
       \<not> oldStorageClosed (epochsConfirmed earlier tsm)
       \<and> closeCalls (db (epochsConfirmed earlier tsm)) = closeCalls (db tsm)
       \<and> map closeCalls (snapshots (epochsConfirmed earlier tsm))
           = map closeCalls (snapshots tsm)
       \<and> flagDisableOldStorage (EpochConfirmed epoch (epochsConfirmed earlier tsm))
       \<and> oldStorageClosed (EpochConfirmed epoch (epochsConfirmed earlier tsm))
       \<and> closeCalls (db (EpochConfirmed epoch (epochsConfirmed earlier tsm)))
           = Suc (closeCalls (db tsm))
       \<and> map closeCalls (snapshots (EpochConfirmed epoch (epochsConfirmed earlier tsm)))
           = map (\<lambda>sdb. Suc (closeCalls sdb)) (snapshots tsm)
       \<and> oldStorageClosed
           (epochsConfirmed later (EpochConfirmed epoch (epochsConfirmed earlier tsm)))
       \<and> closeCalls
             (db (epochsConfirmed later (EpochConfirmed epoch (epochsConfirmed earlier tsm))))
           = Suc (closeCalls (db tsm))
       \<and> map closeCalls
             (snapshots
               (epochsConfirmed later (EpochConfirmed epoch (epochsConfirmed earlier tsm))))
           = map (\<lambda>sdb. Suc (closeCalls sdb)) (snapshots tsm))"
proof -
  have run: "\<not> oldStorageClosed (epochsConfirmed earlier tsm)
       \<and> closeCalls (db (epochsConfirmed earlier tsm)) = closeCalls (db tsm)
       \<and> map closeCalls (snapshots (epochsConfirmed earlier tsm))
           = map closeCalls (snapshots tsm)
       \<and> flagDisableOldStorage (EpochConfirmed epoch (epochsConfirmed earlier tsm))
       \<and> oldStorageClosed (EpochConfirmed epoch (epochsConfirmed earlier tsm))
       \<and> closeCalls (db (EpochConfirmed epoch (epochsConfirmed earlier tsm)))
           = Suc (closeCalls (db tsm))
       \<and> map closeCalls (snapshots (EpochConfirmed epoch (epochsConfirmed earlier tsm)))
           = map (\<lambda>sdb. Suc (closeCalls sdb)) (snapshots tsm)
       \<and> oldStorageClosed
           (epochsConfirmed later (EpochConfirmed epoch (epochsConfirmed earlier tsm)))
       \<and> closeCalls
             (db (epochsConfirmed later (EpochConfirmed epoch (epochsConfirmed earlier tsm))))
           = Suc (closeCalls (db tsm))
       \<and> map closeCalls
             (snapshots
               (epochsConfirmed later (EpochConfirmed epoch (epochsConfirmed earlier tsm))))
           = map (\<lambda>sdb. Suc (closeCalls sdb)) (snapshots tsm)"
    if a1: "\<not> oldStorageClosed tsm"
      and a2: "list_all (\<lambda>e. e < disableOldStorageEpoch tsm) earlier"
      and a3: "disableOldStorageEpoch tsm \<le> epoch"
  proof -
    define tsm1 where "tsm1 = epochsConfirmed earlier tsm"
    define tsm2 where "tsm2 = EpochConfirmed epoch tsm1"
    have one: "oldStorageClosed tsm1 = oldStorageClosed tsm" "db tsm1 = db tsm"
      "snapshots tsm1 = snapshots tsm"
      using epochsConfirmed_below [OF a2] by (simp_all add: tsm1_def)
    have thr: "disableOldStorageEpoch tsm1 \<le> epoch"
      using a3 by (simp add: tsm1_def epochsConfirmed_threshold)
    have open1: "\<not> oldStorageClosed tsm1" using one(1) a1 by simp
    have two: "flagDisableOldStorage tsm2" "oldStorageClosed tsm2"
      "db tsm2 = snd (storer_Close (db tsm))"
      "snapshots tsm2 = map (\<lambda>sdb. snd (storer_Close sdb)) (snapshots tsm)"
      using EpochConfirmed_first [OF open1 thr] one by (simp_all add: tsm2_def)
    have three: "oldStorageClosed (epochsConfirmed later tsm2)"
      "db (epochsConfirmed later tsm2) = db tsm2"
      "snapshots (epochsConfirmed later tsm2) = snapshots tsm2"
      using epochsConfirmed_closed_legacy [OF two(2), of later] by simp_all
    have m: "map closeCalls (map (\<lambda>sdb. snd (storer_Close sdb)) (snapshots tsm))
        = map (\<lambda>sdb. Suc (closeCalls sdb)) (snapshots tsm)"
      by (simp add: closeCalls_Close)
    show ?thesis
      using open1 one two three m unfolding tsm1_def [symmetric] tsm2_def [symmetric]
      by (simp add: closeCalls_Close)
  qed
  show ?thesis
    using epochsConfirmed_closeCalls [of calls tsm] run by blast
qed

lemma NewTrieStorageManager_example:
  "NewTrieStorageManager (exampleArgs None) None
     [storerOf [(''g'', ''gen0'')], storerOf [(''g'', ''gen1'')]] = Inr exampleManager"
  by (simp add: NewTrieStorageManager_def exampleArgs_def exampleManager_def managerOf_def)

text \<open>
  C7. The legacy stores are to be closed at most once, and \<open>EpochConfirmed\<close> guards its
  close with \<open>oldStorageClosed\<close>; \<open>Close\<close> and the constructor test the flag instead
  and close again what is closed already. With the threshold at 3: \<open>EpochConfirmed\<close> of
  epoch 5 closes the legacy db and both snapshot stores, \<open>EpochConfirmed\<close> of epoch 2
  clears the flag and leaves \<open>oldStorageClosed\<close> set, and \<open>Close\<close> then closes the three
  stores a second time. And when the notifier confirms epoch 5 to the manager as it
  registers, \<open>EpochConfirmed\<close> closes the legacy db and the constructor, finding the flag
  set, closes it again.
\<close>

theorem legacy_closed_twice:
  "map closeCalls (db exampleManager # snapshots exampleManager) = [0, 0, 0]
   \<and> map closeCalls (db (epochsConfirmed [5] exampleManager)
         # snapshots (epochsConfirmed [5] exampleManager)) = [1, 1, 1]
   \<and> oldStorageClosed (epochsConfirmed [5, 2] exampleManager)
   \<and> \<not> flagDisableOldStorage (epochsConfirmed [5, 2] exampleManager)
   \<and> map closeCalls (db (snd (Close (epochsConfirmed [5, 2] exampleManager)))
         # snapshots (snd (Close (epochsConfirmed [5, 2] exampleManager)))) = [2, 2, 2]
   \<and> (case NewTrieStorageManager (exampleArgs (Some 5)) None [] of
         Inl e \<Rightarrow> None
       | Inr tsm \<Rightarrow> Some (closeCalls (db tsm), oldStorageClosed tsm)) = Some (2, True)"
  by (simp add: NewTrieStorageManager_def exampleArgs_def Close_def EpochConfirmed_def
      closeOldTrieStorage_def Toggle_def Let_def case_prod_beta exampleManager_def managerOf_def
      storer_Put_def storer_Close_def storerOf_def)

section \<open>Requests that finish at once\<close>

lemma safelyCloseChan_open:
  "ch \<noteq> ClosedChan \<Longrightarrow>
     safelyCloseChan ch = Returns (if ch = NilChan then NilChan else ClosedChan)"
  by (cases ch) (simp_all add: safelyCloseChan_def)

lemma TakeSnapshot_closed:
  "closed tsm \<Longrightarrow> ch \<noteq> ClosedChan \<Longrightarrow>
     TakeSnapshot emptyTrieHash pick root ch st tsm
       = Returns (tsm, if ch = NilChan then NilChan else ClosedChan, SnapshotFinished st)"
  by (simp add: TakeSnapshot_def isClosed_def safelyCloseChan_open)

lemma SetCheckpoint_closed:
  "closed tsm \<Longrightarrow> ch \<noteq> ClosedChan \<Longrightarrow>
     SetCheckpoint emptyTrieHash pick root ch st tsm
       = Returns (tsm, if ch = NilChan then NilChan else ClosedChan, SnapshotFinished st)"
  by (simp add: SetCheckpoint_def isClosed_def safelyCloseChan_open)

lemma TakeSnapshot_empty:
  "ch \<noteq> ClosedChan \<Longrightarrow>
     TakeSnapshot emptyTrieHash pick emptyTrieHash ch st tsm
       = Returns (tsm, if ch = NilChan then NilChan else ClosedChan, SnapshotFinished st)"
  by (simp add: TakeSnapshot_def safelyCloseChan_open)

lemma SetCheckpoint_empty:
  "ch \<noteq> ClosedChan \<Longrightarrow>
     SetCheckpoint emptyTrieHash pick emptyTrieHash ch st tsm
       = Returns (tsm, if ch = NilChan then NilChan else ClosedChan, SnapshotFinished st)"
  by (simp add: SetCheckpoint_def safelyCloseChan_open)

lemma Close_closed: "closed (snd (Close tsm))"
  by (simp add: Close_def closeOldTrieStorage_def Let_def case_prod_beta split: option.split)

text \<open>
  C2. For a root hash equal to the empty-trie hash, every manager, every statistics
  handler and every leaf sink that is nil or still open (closing a closed channel panics
  in Go), \<open>TakeSnapshot\<close> and \<open>SetCheckpoint\<close> return with the sink closed when there
  is one, one more \<open>SnapshotFinished\<close> call on the statistics handler and the manager
  unchanged: no request is queued and the pruning-block counter keeps its value.
\<close>

theorem empty_root_finishes_at_once:
  "ch \<noteq> ClosedChan \<Longrightarrow>
     TakeSnapshot emptyTrieHash pick emptyTrieHash ch st tsm
       = Returns (tsm, if ch = NilChan then NilChan else ClosedChan, SnapshotFinished st)
     \<and> SetCheckpoint emptyTrieHash pick emptyTrieHash ch st tsm
       = Returns (tsm, if ch = NilChan then NilChan else ClosedChan, SnapshotFinished st)
     \<and> finishedCalls (SnapshotFinished st) = Suc (finishedCalls st)"
  by (simp add: TakeSnapshot_empty SetCheckpoint_empty SnapshotFinished_def)

theorem empty_root_finishes_at_once_witness:
  "TakeSnapshot exampleEmptyTrieHash SendCase exampleEmptyTrieHash OpenChan
       \<lparr>finishedCalls = 0\<rparr> exampleManager
     = Returns (exampleManager, ClosedChan, \<lparr>finishedCalls = 1\<rparr>)
   \<and> SetCheckpoint exampleEmptyTrieHash SendCase exampleEmptyTrieHash NilChan
       \<lparr>finishedCalls = 0\<rparr> exampleManager
     = Returns (exampleManager, NilChan, \<lparr>finishedCalls = 1\<rparr>)"
proof -
  have o: "OpenChan \<noteq> ClosedChan" and n: "NilChan \<noteq> ClosedChan" by simp_all
  show ?thesis
    using empty_root_finishes_at_once [OF o, of exampleEmptyTrieHash SendCase
        "\<lparr>finishedCalls = 0\<rparr>" exampleManager]
      empty_root_finishes_at_once [OF n, of exampleEmptyTrieHash SendCase
        "\<lparr>finishedCalls = 0\<rparr>" exampleManager]
    by (simp add: SnapshotFinished_def)
qed

text \<open>
  C3. \<open>Close\<close> leaves the manager with \<open>closed\<close> set. On every manager with
  \<open>closed\<close> set, whatever the root hash, \<open>TakeSnapshot\<close> and \<open>SetCheckpoint\<close> close
  the leaf sink when there is one (a sink that is nil or still open), call
  \<open>SnapshotFinished\<close> once and leave the manager unchanged: no backend is written or
  closed, no request is queued and the pruning-block counter keeps its value.
\<close>

theorem closed_manager_finishes_at_once:
  "closed (snd (Close tsm0))
   \<and> (closed tsm \<and> ch \<noteq> ClosedChan \<longrightarrow>
        TakeSnapshot emptyTrieHash pick root ch st tsm
          = Returns (tsm, if ch = NilChan then NilChan else ClosedChan, SnapshotFinished st)
        \<and> SetCheckpoint emptyTrieHash pick root ch st tsm
          = Returns (tsm, if ch = NilChan then NilChan else ClosedChan, SnapshotFinished st)
        \<and> finishedCalls (SnapshotFinished st) = Suc (finishedCalls st))"
  by (simp add: Close_closed TakeSnapshot_closed SetCheckpoint_closed SnapshotFinished_def)

theorem closed_manager_finishes_at_once_witness:
  "closed (snd (Close exampleManager))
   \<and> TakeSnapshot exampleEmptyTrieHash SendCase ''root'' OpenChan \<lparr>finishedCalls = 0\<rparr>
       (snd (Close exampleManager))
     = Returns (snd (Close exampleManager), ClosedChan, \<lparr>finishedCalls = 1\<rparr>)
   \<and> SetCheckpoint exampleEmptyTrieHash SendCase ''root'' OpenChan \<lparr>finishedCalls = 0\<rparr>
       (snd (Close exampleManager))
     = Returns (snd (Close exampleManager), ClosedChan, \<lparr>finishedCalls = 1\<rparr>)"
  using closed_manager_finishes_at_once [of exampleManager "snd (Close exampleManager)" OpenChan
      exampleEmptyTrieHash SendCase "''root''" "\<lparr>finishedCalls = 0\<rparr>"]
  by (simp add: SnapshotFinished_def)

section \<open>The activity check\<close>

text \<open>
  C9. \<open>isActiveDb\<close> panics exactly when the read of the \<open>activeDB\<close> key returns a
  value other than \<open>yes\<close> together with a nil error; so it is safe only when every
  such read comes with an error. A backend reaches that state: after a successful
  \<open>Put\<close> of another value under the \<open>activeDB\<close> key, the read returns that value
  with a nil error and \<open>isActiveDb\<close> panics.
\<close>

theorem isActiveDb_panics_on_nil_error:
  "(isActiveDb stsmGet = Panics)
     = (fst (stsmGet activeDBKey) \<noteq> activeDBVal \<and> snd (stsmGet activeDBKey) = None)
   \<and> (writeFault st = None \<and> val \<noteq> activeDBVal \<longrightarrow>
        isActiveDb (storer_Get (snd (storer_Put activeDBKey val st))) = Panics)"
  by (auto simp: isActiveDb_def storer_Put_def storer_Get_def case_prod_beta
      split: option.splits)

theorem isActiveDb_panics_on_nil_error_witness:
  "isActiveDb (storer_Get (snd (storer_Put activeDBKey ''no'' (storerOf [])))) = Panics
   \<and> isActiveDb (storer_Get (snd (storer_Put activeDBKey ''yes'' (storerOf [])))) = Returns True
   \<and> isActiveDb (storer_Get (storerOf [])) = Returns False"
proof -
  have w: "writeFault (storerOf []) = None" by (simp add: storerOf_def)
  have n: "''no'' \<noteq> activeDBVal" by (simp add: activeDBVal_def)
  have y: "isActiveDb (storer_Get (snd (storer_Put activeDBKey ''yes'' (storerOf [])))) = Returns True"
    by (simp add: isActiveDb_def storer_Put_def storer_Get_def storerOf_def activeDBVal_def)
  have a: "isActiveDb (storer_Get (storerOf [])) = Returns False"
    by (simp add: isActiveDb_def storer_Get_def storerOf_def activeDBVal_def)
  show ?thesis
    using w n y a isActiveDb_panics_on_nil_error [of "storer_Get (storerOf [])" "storerOf []" "''no''"]
    by simp
qed

end
